theory Spec2Isabelle
  imports Main
begin

section \<open>The workflow run form: values, objects and the array store\<close>

text \<open>
  The component under study is the workflow run form (the single-file component with the
  methods \<open>getValidationScrollTo\<close>, \<open>onValidation\<close>, \<open>onExecute\<close>, ...).  Its data are
  JavaScript values.  Numbers are the integers (step indices and the like), strings are
  character lists.  Plain objects are kept by value, as the list of their own properties
  in creation order.  Arrays are kept by reference into a store, because \<open>onExecute\<close>
  copies an array with \<open>slice()\<close> and the difference between the copy and the original
  is one of identity.
\<close>

type_synonym addr = nat

datatype jsval =
    Undefined
  | Null
  | Bool bool
  | Num int
  | Str string
  | Arr addr
  | Obj "(string \<times> jsval) list"

type_synonym 'a obj = "(string \<times> 'a) list"

type_synonym props = "jsval obj"

text \<open>The store holds the elements of every allocated array; an address is an index.\<close>

type_synonym store = "jsval list list"

datatype error = TypeError | DanglingReference

text \<open>
  \<open>DanglingReference\<close> marks the use of an address outside the store.  No execution of the
  program produces one; the constructor keeps the model total.
\<close>

definition array_at :: "store \<Rightarrow> addr \<Rightarrow> jsval list option" where
  "array_at h a = (if a < length h then Some (h ! a) else None)"

definition alloc :: "jsval list \<Rightarrow> store \<Rightarrow> jsval \<times> store" where
  "alloc xs h = (Arr (length h), h @ [xs])"

text \<open>Truthiness, as tested by \<open>if (v)\<close>, \<open>v ? a : b\<close>, \<open>!v\<close> and \<open>v && w\<close>.\<close>

fun truthy :: "jsval \<Rightarrow> bool" where
  "truthy Undefined = False"
| "truthy Null = False"
| "truthy (Bool b) = b"
| "truthy (Num n) = (n \<noteq> 0)"
| "truthy (Str s) = (s \<noteq> [])"
| "truthy (Arr a) = True"
| "truthy (Obj ps) = True"

subsection \<open>Property keys and the order of own properties\<close>

text \<open>
  Property keys are strings.  A key that is the canonical decimal numeral of a number
  below \<open>2^32 - 1\<close> is an array index; \<open>Object.entries\<close> lists the array-index keys first,
  in ascending numeric order, and the other keys after them in creation order.
\<close>

definition digits :: string where
  "digits = ''0123456789''"

definition digit_char :: "nat \<Rightarrow> char" where
  "digit_char d = digits ! (d mod 10)"

definition digit_val :: "char \<Rightarrow> nat option" where
  "digit_val c = map_of (zip digits [0, 1, 2, 3, 4, 5, 6, 7, 8, 9]) c"

text \<open>\<open>String(n)\<close> for a natural number \<open>n\<close>; this is how a step index becomes a key.\<close>

fun show_nat :: "nat \<Rightarrow> string" where
  "show_nat n = (if n < 10 then [digit_char n] else show_nat (n div 10) @ [digit_char (n mod 10)])"

declare show_nat.simps [simp del]

fun parse_digits :: "nat \<Rightarrow> string \<Rightarrow> nat option" where
  "parse_digits acc [] = Some acc"
| "parse_digits acc (c # cs) =
     (case digit_val c of None \<Rightarrow> None | Some d \<Rightarrow> parse_digits (10 * acc + d) cs)"

definition array_index :: "string \<Rightarrow> nat option" where
  "array_index k =
     (if k = [] then None
      else case parse_digits 0 k of
             None \<Rightarrow> None
           | Some n \<Rightarrow> if show_nat n = k \<and> n < 4294967295 then Some n else None)"

definition index_rank :: "string \<Rightarrow> nat" where
  "index_rank k = (case array_index k of None \<Rightarrow> 0 | Some n \<Rightarrow> n)"

definition is_index :: "string \<Rightarrow> bool" where
  "is_index k = (array_index k \<noteq> None)"

text \<open>\<open>Object.entries(o)\<close> for a plain object \<open>o\<close>.\<close>

definition own_entries :: "'a obj \<Rightarrow> 'a obj" where
  "own_entries ps =
     sort_key (\<lambda>p. index_rank (fst p)) (filter (\<lambda>p. is_index (fst p)) ps)
     @ filter (\<lambda>p. \<not> is_index (fst p)) ps"

text \<open>
  The assignment \<open>o[k] = v\<close>: an existing property keeps its place, a new one is created
  last.  Property names are data property names; the accessor \<open>__proto__\<close> is outside
  the model.
\<close>

fun put :: "string \<Rightarrow> 'a \<Rightarrow> 'a obj \<Rightarrow> 'a obj" where
  "put k v [] = [(k, v)]"
| "put k v (p # ps) = (if fst p = k then (k, v) # ps else p # put k v ps)"

text \<open>The read \<open>o[k]\<close> of a plain object: \<open>undefined\<close> for a property that is not there.\<close>

definition getprop :: "props \<Rightarrow> string \<Rightarrow> jsval" where
  "getprop ps k = (case map_of ps k of None \<Rightarrow> Undefined | Some v \<Rightarrow> v)"

text \<open>\<open>Object.assign({}, o)\<close>: a new object with the own properties of \<open>o\<close>.\<close>

definition assign_copy :: "'a obj \<Rightarrow> 'a obj" where
  "assign_copy ps = fold (\<lambda>p acc. put (fst p) (snd p) acc) (own_entries ps) []"

text \<open>
  \<open>v && v.k\<close> for a name \<open>k\<close> that no built-in prototype defines (\<open>response\<close>, \<open>data\<close>,
  \<open>err_data\<close>): a falsy \<open>v\<close> is the result, a truthy one is asked for its property.
\<close>

fun guarded_member :: "jsval \<Rightarrow> string \<Rightarrow> jsval" where
  "guarded_member (Obj ps) k = getprop ps k"
| "guarded_member v k = (if truthy v then Undefined else v)"

text \<open>The own entries of an array or a string: its elements under the keys 0, 1, ...\<close>

definition indexed :: "jsval list \<Rightarrow> props" where
  "indexed xs = zip (map show_nat [0..<length xs]) xs"

text \<open>\<open>Object.entries(v)\<close> for any value; it throws on \<open>undefined\<close> and \<open>null\<close>.\<close>

fun entries :: "store \<Rightarrow> jsval \<Rightarrow> error + props" where
  "entries h Undefined = Inl TypeError"
| "entries h Null = Inl TypeError"
| "entries h (Bool b) = Inr []"
| "entries h (Num n) = Inr []"
| "entries h (Str s) = Inr (indexed (map (\<lambda>c. Str [c]) s))"
| "entries h (Arr a) =
     (case array_at h a of None \<Rightarrow> Inl DanglingReference | Some xs \<Rightarrow> Inr (indexed xs))"
| "entries h (Obj ps) = Inr (own_entries ps)"

text \<open>
  \<open>v.slice()\<close>: a new array with the same elements for an array, the string itself for a
  string; any other value has no callable \<open>slice\<close>, and the call throws.
\<close>

fun slice :: "store \<Rightarrow> jsval \<Rightarrow> error + jsval \<times> store" where
  "slice h (Arr a) =
     (case array_at h a of None \<Rightarrow> Inl DanglingReference | Some xs \<Rightarrow> Inr (alloc xs h))"
| "slice h (Str s) = Inr (Str s, h)"
| "slice h v = Inl TypeError"

section \<open>The component\<close>

text \<open>
  The workflow model is a collaborator: the form reads its workflow id and history id and
  asks it whether an input of a step is connected.
\<close>

record model =
  workflowId :: jsval
  historyId :: jsval
  isConnected :: "string \<Rightarrow> string \<Rightarrow> bool"

text \<open>
  The component's data.  \<open>stepScrollTo\<close> is \<open>{}\<close> at first (\<open>None\<close>) and later an object
  \<open>{stepId, stepError}\<close>; \<open>resourceData\<close> is not declared by \<open>data()\<close> and is undefined
  until \<open>onResourceInputs\<close> runs.
\<close>

record form =
  showExecuting :: bool
  stepData :: "props obj"
  stepValidations :: props
  stepScrollTo :: "(string \<times> jsval) option"
  wpData :: jsval
  historyData :: props
  resourceData :: jsval
  useCachedJobs :: bool

definition initial_form :: form where
  "initial_form =
     \<lparr> showExecuting = False, stepData = [], stepValidations = [], stepScrollTo = None,
       wpData = Obj [], historyData = [], resourceData = Undefined, useCachedJobs = False \<rparr>"

record jobdef =
  new_history_name :: jsval
  history_id :: jsval
  resource_params :: jsval
  replacement_params :: jsval
  use_cached_job :: bool
  parameters :: "props obj"
  parameters_normalized :: bool
  batch :: bool
  require_exact_tool_versions :: bool

text \<open>
  What the component does to the outside, in program order: writes of the busy indicator
  \<open>showExecuting\<close>, the call of the invocation service, and the two emitted events.
\<close>

datatype event =
    Executing bool
  | InvokeWorkflow jsval jobdef
  | SubmissionSuccess jsval
  | SubmissionError jsval

subsection \<open>Recording callbacks\<close>

definition onDefaultStepInputs :: "nat \<Rightarrow> props \<Rightarrow> form \<Rightarrow> form" where
  "onDefaultStepInputs stepId data' this =
     this\<lparr>stepData := assign_copy (put (show_nat stepId) data' (stepData this))\<rparr>"

definition onToolStepInputs :: "nat \<Rightarrow> props \<Rightarrow> form \<Rightarrow> form" where
  "onToolStepInputs stepId data' this =
     this\<lparr>stepData := put (show_nat stepId) data' (stepData this)\<rparr>"

definition onHistoryInputs :: "props \<Rightarrow> form \<Rightarrow> form" where
  "onHistoryInputs data' this = this\<lparr>historyData := data'\<rparr>"

definition onResourceInputs :: "jsval \<Rightarrow> form \<Rightarrow> form" where
  "onResourceInputs data' this = this\<lparr>resourceData := data'\<rparr>"

definition onWpInputs :: "jsval \<Rightarrow> form \<Rightarrow> form" where
  "onWpInputs data' this = this\<lparr>wpData := data'\<rparr>"

definition onValidation :: "nat \<Rightarrow> jsval \<Rightarrow> form \<Rightarrow> form" where
  "onValidation stepId validation this =
     this\<lparr>stepValidations := put (show_nat stepId) validation (stepValidations this)\<rparr>"

subsection \<open>getValidationScrollTo\<close>

text \<open>
  \<open>this.stepScrollTo.stepId == stepId\<close>, for a step index \<open>stepId\<close>.  The left side is
  \<open>undefined\<close> or a property key.  \<open>undefined == n\<close> is false for a number.  A key is
  compared by its numeric value: for an array-index key that is the index; for any other
  string the language's conversion of strings to numbers decides (white space, signs,
  fractions, exponents, hexadecimal literals), which is the parameter \<open>to_number_eq\<close>.
\<close>

definition key_eq_num :: "(string \<Rightarrow> nat \<Rightarrow> bool) \<Rightarrow> string \<Rightarrow> nat \<Rightarrow> bool" where
  "key_eq_num to_number_eq k n =
     (case array_index k of Some m \<Rightarrow> m = n | None \<Rightarrow> to_number_eq k n)"

definition getValidationScrollTo ::
  "(string \<Rightarrow> nat \<Rightarrow> bool) \<Rightarrow> store \<times> form \<Rightarrow> nat \<Rightarrow> jsval \<times> store" where
  "getValidationScrollTo to_number_eq s stepId =
     (case s of (h, this) \<Rightarrow>
        (case stepScrollTo this of
           None \<Rightarrow> alloc [] h
         | Some (k, stepError) \<Rightarrow>
             if key_eq_num to_number_eq k stepId then (stepError, h) else alloc [] h))"

subsection \<open>onExecute\<close>

text \<open>The validation loop up to its \<open>return\<close>: the first entry whose value is truthy.\<close>

fun first_invalid :: "props \<Rightarrow> (string \<times> jsval) option" where
  "first_invalid [] = None"
| "first_invalid ((stepId, stepValidation) # es) =
     (if truthy stepValidation then Some (stepId, stepValidation) else first_invalid es)"

definition stepDataFiltered :: "model \<Rightarrow> string \<Rightarrow> props \<Rightarrow> props" where
  "stepDataFiltered m stepId stepData' =
     fold (\<lambda>(inputName, inputValue) acc.
             if \<not> isConnected m stepId inputName then put inputName inputValue acc else acc)
          (own_entries stepData') []"

definition build_parameters :: "model \<Rightarrow> props obj \<Rightarrow> props obj" where
  "build_parameters m sd =
     fold (\<lambda>(stepId, stepData') acc. put stepId (stepDataFiltered m stepId stepData') acc)
          (own_entries sd) []"

definition jobDef :: "model \<Rightarrow> form \<Rightarrow> jobdef" where
  "jobDef m this =
     \<lparr> new_history_name =
         (if truthy (getprop (historyData this) ''new_history|name'')
          then getprop (historyData this) ''new_history|name'' else Null),
       history_id =
         (if \<not> truthy (getprop (historyData this) ''new_history|name'')
          then historyId m else Null),
       resource_params = resourceData this,
       replacement_params = wpData this,
       use_cached_job = useCachedJobs this,
       parameters = build_parameters m (stepData this),
       parameters_normalized = True,
       batch = True,
       require_exact_tool_versions = False \<rparr>"

text \<open>
  The synchronous part of \<open>onExecute\<close>: the result is the exception it throws, or the state
  when it returns together with what it did.  The handlers of the promise are
  \<open>onFulfilled\<close> and \<open>onRejected\<close> below.
\<close>

definition onExecute :: "model \<Rightarrow> store \<times> form \<Rightarrow> error + (store \<times> form) \<times> event list" where
  "onExecute m s =
     (case s of (h, this) \<Rightarrow>
        (case first_invalid (own_entries (stepValidations this)) of
           Some (stepId, stepValidation) \<Rightarrow>
             (case slice h stepValidation of
                Inl exn \<Rightarrow> Inl exn
              | Inr (stepError, h') \<Rightarrow>
                  Inr ((h', this\<lparr>stepScrollTo := Some (stepId, stepError)\<rparr>), []))
         | None \<Rightarrow>
             Inr ((h, this\<lparr>showExecuting := True\<rparr>),
                  [Executing True, InvokeWorkflow (workflowId m) (jobDef m this)])))"

definition onFulfilled :: "jsval \<Rightarrow> store \<times> form \<Rightarrow> (store \<times> form) \<times> event list" where
  "onFulfilled invocations s =
     (case s of (h, this) \<Rightarrow>
        ((h, this\<lparr>showExecuting := False\<rparr>), [Executing False, SubmissionSuccess invocations]))"

definition errorData :: "jsval \<Rightarrow> jsval" where
  "errorData e =
     guarded_member (guarded_member (guarded_member e ''response'') ''data'') ''err_data''"

text \<open>
  The body of the \<open>try\<close> block: the new scroll target, or the exception thrown while it is
  put together.  The object literal is evaluated before it is assigned, so an exception
  leaves \<open>stepScrollTo\<close> as it was.  \<open>errorEntries[0][0]\<close> throws when there is no first
  entry; \<open>Object.entries(v)[0]\<close> is \<open>undefined\<close>, without an exception, when \<open>v\<close> has no
  entry.
\<close>

definition format_error :: "store \<Rightarrow> jsval \<Rightarrow> error + (string \<times> jsval) \<times> store" where
  "format_error h errData =
     (case entries h errData of
        Inl exn \<Rightarrow> Inl exn
      | Inr errorEntries \<Rightarrow>
          (case errorEntries of
             [] \<Rightarrow> Inl TypeError
           | (stepId, stepErrors) # _ \<Rightarrow>
               (case entries h stepErrors of
                  Inl exn \<Rightarrow> Inl exn
                | Inr fieldErrors \<Rightarrow>
                    (case fieldErrors of
                       [] \<Rightarrow> Inr ((stepId, Undefined), h)
                     | (field, message) # _ \<Rightarrow>
                         (case alloc [Str field, message] h of
                            (pair, h') \<Rightarrow> Inr ((stepId, pair), h'))))))"

definition onRejected :: "jsval \<Rightarrow> store \<times> form \<Rightarrow> (store \<times> form) \<times> event list" where
  "onRejected e s =
     (case s of (h, this) \<Rightarrow>
        if truthy (errorData e) then
          (case format_error h (errorData e) of
             Inr (target, h') \<Rightarrow>
               ((h', this\<lparr>showExecuting := False, stepScrollTo := Some target\<rparr>),
                [Executing False])
           | Inl errorFormatting \<Rightarrow>
               ((h, this\<lparr>showExecuting := False\<rparr>), [Executing False, SubmissionError e]))
        else ((h, this\<lparr>showExecuting := False\<rparr>), [Executing False, SubmissionError e]))"

subsection \<open>The specification's reading of a validation entry\<close>

text \<open>
  The specification speaks of a validation entry that is empty or absent, and of one that
  is non-empty: an entry is a list, and the empty list is given as the entry of a valid
  step.  The two predicates follow these words; the code's own test is \<open>truthy\<close>.
\<close>

fun spec_empty_validation :: "store \<Rightarrow> jsval \<Rightarrow> bool" where
  "spec_empty_validation h Undefined = True"
| "spec_empty_validation h Null = True"
| "spec_empty_validation h (Arr a) = (array_at h a = Some [])"
| "spec_empty_validation h v = False"

fun spec_nonempty_validation :: "store \<Rightarrow> jsval \<Rightarrow> bool" where
  "spec_nonempty_validation h (Arr a) =
     (case array_at h a of None \<Rightarrow> False | Some xs \<Rightarrow> xs \<noteq> [])"
| "spec_nonempty_validation h v = False"

text \<open>A workflow model with two steps; input \<open>a\<close> of step 0 is connected.\<close>

definition example_model :: model where
  "example_model =
     \<lparr> workflowId = Str ''w1'', historyId = Str ''h1'',
       isConnected = (\<lambda>stepId inputName. stepId = ''0'' \<and> inputName = ''a'') \<rparr>"

section \<open>Evaluation of keys\<close>

lemma digit_val_digit_char:
  assumes "d < 10"
  shows "digit_val (digit_char d) = Some d"
proof -
  from assms consider "d = 0" | "d = 1" | "d = 2" | "d = 3" | "d = 4"
    | "d = 5" | "d = 6" | "d = 7" | "d = 8" | "d = 9"
    by atomize_elim arith
  then show ?thesis
    by cases (simp_all add: digit_val_def digit_char_def digits_def)
qed

lemma parse_digits_append:
  "parse_digits acc (xs @ ys) =
     (case parse_digits acc xs of None \<Rightarrow> None | Some a \<Rightarrow> parse_digits a ys)"
  by (induction xs arbitrary: acc) (auto split: option.splits)

text \<open>Reading back the numeral of a number gives the number.\<close>

lemma parse_show_nat: "parse_digits 0 (show_nat n) = Some n"
proof (induction n rule: show_nat.induct)
  case (1 n)
  show ?case
  proof (cases "n < 10")
    case True
    then show ?thesis by (simp add: show_nat.simps [of n] digit_val_digit_char)
  next
    case False
    with 1 have "parse_digits 0 (show_nat (n div 10)) = Some (n div 10)" by simp
    with False show ?thesis
      by (simp add: show_nat.simps [of n] parse_digits_append digit_val_digit_char)
  qed
qed

lemma show_nat_nonempty: "show_nat n \<noteq> []"
  by (simp add: show_nat.simps [of n])

lemma array_index_show_nat: "n < 4294967295 \<Longrightarrow> array_index (show_nat n) = Some n"
  by (simp add: array_index_def show_nat_nonempty parse_show_nat)

lemma array_index_sound: "array_index k = Some n \<Longrightarrow> k = show_nat n"
  by (auto simp: array_index_def split: if_splits option.splits)

lemma show_nat_inj: "show_nat m = show_nat n \<Longrightarrow> m = n"
  by (metis parse_show_nat option.inject)

lemma show_nat_0: "show_nat 0 = ''0''"
  by (simp add: show_nat.simps digit_char_def digits_def)

lemma show_nat_1: "show_nat 1 = ''1''"
  by (simp add: show_nat.simps digit_char_def digits_def)

lemma show_nat_Suc_0: "show_nat (Suc 0) = ''1''"
  using show_nat_1 by simp

lemma show_nat_2: "show_nat 2 = ''2''"
  by (simp add: show_nat.simps digit_char_def digits_def)

lemma array_index_0: "array_index ''0'' = Some 0"
  by (simp add: array_index_def digit_val_def show_nat.simps digit_char_def digits_def)

lemma array_index_1: "array_index ''1'' = Some 1"
  by (simp add: array_index_def digit_val_def show_nat.simps digit_char_def digits_def)

lemma array_index_2: "array_index ''2'' = Some 2"
  by (simp add: array_index_def digit_val_def show_nat.simps digit_char_def digits_def)

section \<open>The order of own properties and the validation loop\<close>

lemma set_own_entries: "set (own_entries ps) = set ps"
  by (auto simp: own_entries_def)

lemma own_entries_all_index:
  assumes "\<forall>p\<in>set ps. is_index (fst p)"
  shows "own_entries ps = sort_key (\<lambda>p. index_rank (fst p)) ps"
proof -
  from assms have "filter (\<lambda>p. is_index (fst p)) ps = ps"
    by (simp add: filter_id_conv)
  moreover from assms have "filter (\<lambda>p. \<not> is_index (fst p)) ps = []"
    by (simp add: filter_empty_conv)
  ultimately show ?thesis by (simp add: own_entries_def)
qed

lemma first_invalid_None: "first_invalid es = None \<longleftrightarrow> (\<forall>p\<in>set es. \<not> truthy (snd p))"
  by (induction es rule: first_invalid.induct) auto

lemma first_invalid_Some: "first_invalid es = Some (k, v) \<Longrightarrow> (k, v) \<in> set es \<and> truthy v"
  by (induction es rule: first_invalid.induct) (auto split: if_splits)

lemma first_invalid_exists:
  "(k0, v0) \<in> set es \<Longrightarrow> truthy v0 \<Longrightarrow> \<exists>k v. first_invalid es = Some (k, v)"
  using first_invalid_None [of es] by (cases "first_invalid es") auto

text \<open>In a list sorted by a rank, the first truthy entry has the least rank among them.\<close>

lemma first_invalid_sorted:
  "sorted (map f es) \<Longrightarrow> first_invalid es = Some p \<Longrightarrow> q \<in> set es \<Longrightarrow> truthy (snd q)
     \<Longrightarrow> f p \<le> (f q :: nat)"
  by (induction es rule: first_invalid.induct) (auto split: if_splits)

lemma first_invalid_own_entries_least:
  assumes "\<forall>p\<in>set ps. is_index (fst p)"
    and "first_invalid (own_entries ps) = Some (k, v)"
    and "(k', v') \<in> set ps" and "truthy v'"
  shows "index_rank k \<le> index_rank k'"
proof -
  have "sorted (map (\<lambda>p. index_rank (fst p)) (own_entries ps))"
    using assms(1) by (simp add: own_entries_all_index)
  from first_invalid_sorted [OF this assms(2), of "(k', v')"] assms(3,4)
  show ?thesis by (simp add: set_own_entries)
qed

lemmas key_evals = show_nat_0 show_nat_1 show_nat_Suc_0 show_nat_2 array_index_0 array_index_1 array_index_2
  is_index_def index_rank_def

lemmas name_evals = array_index_def digit_val_def digits_def

lemmas reject_defs = onRejected_def errorData_def format_error_def getprop_def own_entries_def
  alloc_def initial_form_def

lemmas run_defs = onValidation_def initial_form_def onExecute_def own_entries_def
  array_at_def alloc_def example_model_def

section \<open>Local validation failures\<close>

text \<open>
  Claim C1, as the code has it.  If some step has a truthy validation entry, \<open>onExecute\<close>
  issues no call of the invocation service: it throws or returns with nothing done to the
  outside.  If moreover every key is a step index and every entry is \<open>undefined\<close>,
  \<open>null\<close> or an array of the store, it returns with the scroll target set to the step
  of the lowest index among the steps with a truthy entry, the error detail a newly
  allocated copy of that entry; every array counts, the empty one included.
\<close>

theorem validation_failure_blocks_at_lowest_index:
  "((k0, v0) \<in> set (stepValidations this) \<and> truthy v0 \<longrightarrow>
      (case onExecute m (h, this) of Inl exn \<Rightarrow> True | Inr (s', evs) \<Rightarrow> evs = []))
   \<and> ((k0, v0) \<in> set (stepValidations this) \<and> truthy v0
        \<and> (\<forall>(k, v) \<in> set (stepValidations this).
              is_index k \<and> (v = Undefined \<or> v = Null \<or> (\<exists>a. v = Arr a \<and> a < length h))) \<longrightarrow>
      (\<exists>k a. (k, Arr a) \<in> set (stepValidations this)
         \<and> (\<forall>(k', v') \<in> set (stepValidations this). truthy v' \<longrightarrow> index_rank k \<le> index_rank k')
         \<and> onExecute m (h, this) =
             Inr ((h @ [h ! a], this\<lparr>stepScrollTo := Some (k, Arr (length h))\<rparr>), [])))"
proof (intro conjI impI)
  assume a: "(k0, v0) \<in> set (stepValidations this) \<and> truthy v0"
  then obtain k v where fi: "first_invalid (own_entries (stepValidations this)) = Some (k, v)"
    using first_invalid_exists [of k0 v0 "own_entries (stepValidations this)"]
    by (auto simp: set_own_entries)
  then show "case onExecute m (h, this) of Inl exn \<Rightarrow> True | Inr (s', evs) \<Rightarrow> evs = []"
    by (simp add: onExecute_def split: sum.splits prod.splits)
next
  assume a: "(k0, v0) \<in> set (stepValidations this) \<and> truthy v0
        \<and> (\<forall>(k, v) \<in> set (stepValidations this).
              is_index k \<and> (v = Undefined \<or> v = Null \<or> (\<exists>a. v = Arr a \<and> a < length h)))"
  then obtain k v where fi: "first_invalid (own_entries (stepValidations this)) = Some (k, v)"
    using first_invalid_exists [of k0 v0 "own_entries (stepValidations this)"]
    by (auto simp: set_own_entries)
  then have mem: "(k, v) \<in> set (stepValidations this)" and tr: "truthy v"
    using first_invalid_Some [OF fi] by (simp_all add: set_own_entries)
  with a obtain b where v: "v = Arr b" and b: "b < length h" by fastforce
  have idx: "\<forall>p\<in>set (stepValidations this). is_index (fst p)" using a by auto
  have least: "\<forall>(k', v') \<in> set (stepValidations this). truthy v' \<longrightarrow> index_rank k \<le> index_rank k'"
    using first_invalid_own_entries_least [OF idx fi] by auto
  have "onExecute m (h, this) = Inr ((h @ [h ! b], this\<lparr>stepScrollTo := Some (k, Arr (length h))\<rparr>), [])"
    using fi v b by (simp add: onExecute_def array_at_def alloc_def)
  with mem v least show "\<exists>k a. (k, Arr a) \<in> set (stepValidations this)
         \<and> (\<forall>(k', v') \<in> set (stepValidations this). truthy v' \<longrightarrow> index_rank k \<le> index_rank k')
         \<and> onExecute m (h, this) =
             Inr ((h @ [h ! a], this\<lparr>stepScrollTo := Some (k, Arr (length h))\<rparr>), [])"
    by blast
qed

theorem validation_failure_blocks_at_lowest_index_witness:
  "onExecute example_model
     ([[], [Str ''x'', Str ''bad'']],
      onValidation 2 (Arr 1) (onValidation 0 Null initial_form)) =
   Inr (([[], [Str ''x'', Str ''bad''], [Str ''x'', Str ''bad'']],
         (onValidation 2 (Arr 1) (onValidation 0 Null initial_form))
           \<lparr>stepScrollTo := Some (''2'', Arr 2)\<rparr>), [])"
  using validation_failure_blocks_at_lowest_index [of "''2''" "Arr 1" "onValidation 2 (Arr 1) (onValidation 0 Null initial_form)"
      example_model "[[], [Str ''x'', Str ''bad'']]"]
  by (auto simp: onValidation_def initial_form_def key_evals)

text \<open>
  Claim C1 as stated fails.  With the validations \<open>{0: [], 2: ["x", "bad"]}\<close> the only
  non-empty entry is that of step 2, but the scroll target is step 0 with an empty error
  detail: the empty array is truthy.
\<close>

theorem empty_list_entry_takes_scroll_target:
  "spec_nonempty_validation [[], [Str ''x'', Str ''bad'']]
     (getprop (stepValidations (onValidation 2 (Arr 1) (onValidation 0 (Arr 0) initial_form))) ''2'')
   \<and> \<not> spec_nonempty_validation [[], [Str ''x'', Str ''bad'']]
     (getprop (stepValidations (onValidation 2 (Arr 1) (onValidation 0 (Arr 0) initial_form))) ''0'')
   \<and> onExecute example_model
       ([[], [Str ''x'', Str ''bad'']],
        onValidation 2 (Arr 1) (onValidation 0 (Arr 0) initial_form)) =
     Inr (([[], [Str ''x'', Str ''bad''], []],
           (onValidation 2 (Arr 1) (onValidation 0 (Arr 0) initial_form))
             \<lparr>stepScrollTo := Some (''0'', Arr 2)\<rparr>), [])"
  by (simp add: run_defs key_evals getprop_def)

text \<open>
  Claim C5, as the code has it.  If every validation entry is falsy (\<open>null\<close>,
  \<open>undefined\<close>; a step without an entry has none to test), \<open>onExecute\<close> sets the busy
  indicator and then calls the invocation service, once, with the assembled request.
\<close>

theorem all_entries_falsy_submits_once:
  "(\<forall>(k, v) \<in> set (stepValidations this). \<not> truthy v) \<Longrightarrow>
   onExecute m (h, this) =
     Inr ((h, this\<lparr>showExecuting := True\<rparr>),
          [Executing True, InvokeWorkflow (workflowId m) (jobDef m this)])"
proof -
  assume "\<forall>(k, v) \<in> set (stepValidations this). \<not> truthy v"
  then have "first_invalid (own_entries (stepValidations this)) = None"
    by (auto simp: first_invalid_None set_own_entries)
  then show ?thesis by (simp add: onExecute_def)
qed

theorem all_entries_falsy_submits_once_witness:
  "onExecute example_model
     ([], onValidation 1 Undefined (onValidation 0 Null initial_form)) =
   Inr (([], (onValidation 1 Undefined (onValidation 0 Null initial_form))\<lparr>showExecuting := True\<rparr>),
        [Executing True,
         InvokeWorkflow (Str ''w1'')
           (jobDef example_model (onValidation 1 Undefined (onValidation 0 Null initial_form)))])"
  using all_entries_falsy_submits_once [of "onValidation 1 Undefined (onValidation 0 Null initial_form)" example_model "[]"]
  by (simp add: onValidation_def initial_form_def key_evals example_model_def)

text \<open>
  Claim C5 as stated fails.  With the validations \<open>{0: []}\<close> every entry is empty, but
  \<open>onExecute\<close> sets the scroll target to step 0 and returns without a call.
\<close>

theorem empty_list_entry_blocks_submission:
  "spec_empty_validation [[]] (getprop (stepValidations (onValidation 0 (Arr 0) initial_form)) ''0'')
   \<and> stepValidations (onValidation 0 (Arr 0) initial_form) = [(''0'', Arr 0)]
   \<and> onExecute example_model ([[]], onValidation 0 (Arr 0) initial_form) =
       Inr (([[], []], (onValidation 0 (Arr 0) initial_form)\<lparr>stepScrollTo := Some (''0'', Arr 1)\<rparr>), [])"
  by (simp add: run_defs key_evals getprop_def)

text \<open>
  Claim C7, as the code has it.  With the validations \<open>{0: v, 1: [...]}\<close> recorded by
  \<open>onValidation\<close>, where \<open>v\<close> is falsy (\<open>null\<close>, \<open>undefined\<close>), \<open>onExecute\<close> returns
  without a call and the scroll target is the key \<open>"1"\<close> with a copy of the list of
  step 1.  When the entry of step 0 is an array, the empty one included, step 0 is the
  scroll target instead.
\<close>

theorem null_entry_valid_empty_list_blocks:
  "(a < length h \<and> stepValidations this = [] \<and> \<not> truthy v0 \<longrightarrow>
      onExecute m (h, onValidation 1 (Arr a) (onValidation 0 v0 this)) =
        Inr ((h @ [h ! a],
              (onValidation 1 (Arr a) (onValidation 0 v0 this))
                \<lparr>stepScrollTo := Some (''1'', Arr (length h))\<rparr>), []))
   \<and> (a < length h \<and> b < length h \<and> stepValidations this = [] \<longrightarrow>
      onExecute m (h, onValidation 1 (Arr a) (onValidation 0 (Arr b) this)) =
        Inr ((h @ [h ! b],
              (onValidation 1 (Arr a) (onValidation 0 (Arr b) this))
                \<lparr>stepScrollTo := Some (''0'', Arr (length h))\<rparr>), []))"
  by (simp add: onValidation_def onExecute_def own_entries_def array_at_def alloc_def key_evals)

theorem null_entry_valid_empty_list_blocks_witness:
  "onExecute example_model
     ([[], [Str ''required'']], onValidation 1 (Arr 1) (onValidation 0 Null initial_form)) =
   Inr (([[], [Str ''required''], [Str ''required'']],
         (onValidation 1 (Arr 1) (onValidation 0 Null initial_form))
           \<lparr>stepScrollTo := Some (''1'', Arr 2)\<rparr>), [])"
  using null_entry_valid_empty_list_blocks [of 1 "[[], [Str ''required'']]" initial_form Null example_model 0]
  by (simp add: initial_form_def)

text \<open>
  Claim C7 as stated fails.  With the validations \<open>{0: [], 1: ["required"]}\<close> the
  scroll target is step 0 with an empty error detail, not step 1: the empty list does
  block the submission at its step.
\<close>

theorem empty_list_entry_not_valid:
  "array_at [[], [Str ''required'']] 0 = Some []
   \<and> array_at [[], [Str ''required'']] 1 = Some [Str ''required'']
   \<and> stepValidations (onValidation 1 (Arr 1) (onValidation 0 (Arr 0) initial_form)) =
       [(''0'', Arr 0), (''1'', Arr 1)]
   \<and> onExecute example_model
       ([[], [Str ''required'']], onValidation 1 (Arr 1) (onValidation 0 (Arr 0) initial_form)) =
     Inr (([[], [Str ''required''], []],
           (onValidation 1 (Arr 1) (onValidation 0 (Arr 0) initial_form))
             \<lparr>stepScrollTo := Some (''0'', Arr 2)\<rparr>), [])"
  by (simp add: run_defs key_evals)

text \<open>
  Claim C9.  When \<open>onExecute\<close> returns although some step has a truthy validation entry,
  it has done nothing to the outside, every field of the component but \<open>stepScrollTo\<close>
  is as before (the busy indicator among them), and every array of the store is as
  before.  The scroll target holds an entry of the validations; when that entry is an
  array, the error detail is an array at an address that was not allocated before, with
  the elements of the entry.
\<close>

theorem validation_abort_changes_only_scroll_target:
  assumes "onExecute m (h, this) = Inr ((h', this'), evs)"
    and "(k0, v0) \<in> set (stepValidations this)" and "truthy v0"
  shows "evs = []
    \<and> this' = this\<lparr>stepScrollTo := stepScrollTo this'\<rparr>
    \<and> stepData this' = stepData this
    \<and> stepValidations this' = stepValidations this
    \<and> wpData this' = wpData this \<and> historyData this' = historyData this
    \<and> resourceData this' = resourceData this \<and> useCachedJobs this' = useCachedJobs this
    \<and> showExecuting this' = showExecuting this
    \<and> (\<not> showExecuting this \<longrightarrow> \<not> showExecuting this')
    \<and> (\<forall>a. a < length h \<longrightarrow> array_at h' a = array_at h a)
    \<and> (\<exists>k v e. stepScrollTo this' = Some (k, e) \<and> (k, v) \<in> set (stepValidations this) \<and> truthy v
          \<and> (\<forall>a. v = Arr a \<longrightarrow>
                (\<exists>a'. e = Arr a' \<and> a' \<noteq> a \<and> array_at h a' = None
                    \<and> array_at h a \<noteq> None \<and> array_at h' a' = array_at h a)))"
proof -
  obtain k v where fi: "first_invalid (own_entries (stepValidations this)) = Some (k, v)"
    using first_invalid_exists [of k0 v0 "own_entries (stepValidations this)"] assms(2,3)
    by (auto simp: set_own_entries)
  then have mem: "(k, v) \<in> set (stepValidations this)" and tr: "truthy v"
    using first_invalid_Some [OF fi] by (simp_all add: set_own_entries)
  from assms(1) fi obtain e where sl: "slice h v = Inr (e, h')"
    and this': "this' = this\<lparr>stepScrollTo := Some (k, e)\<rparr>" and evs: "evs = []"
    by (auto simp: onExecute_def split: sum.splits)
  have frame: "\<forall>a. a < length h \<longrightarrow> array_at h' a = array_at h a"
  proof (cases v)
    case (Arr b)
    with sl show ?thesis
      by (auto simp: array_at_def alloc_def nth_append split: if_splits)
  next
    case (Str t)
    with sl show ?thesis by simp
  qed (use sl in simp_all)
  have copy: "\<forall>a. v = Arr a \<longrightarrow>
                (\<exists>a'. e = Arr a' \<and> a' \<noteq> a \<and> array_at h a' = None
                    \<and> array_at h a \<noteq> None \<and> array_at h' a' = array_at h a)"
  proof (intro allI impI)
    fix a assume "v = Arr a"
    with sl have "a < length h" and "e = Arr (length h)" and "h' = h @ [h ! a]"
      by (auto simp: array_at_def alloc_def split: if_splits)
    then show "\<exists>a'. e = Arr a' \<and> a' \<noteq> a \<and> array_at h a' = None
                    \<and> array_at h a \<noteq> None \<and> array_at h' a' = array_at h a"
      by (simp add: array_at_def)
  qed
  have target: "\<exists>k v e. stepScrollTo this' = Some (k, e) \<and> (k, v) \<in> set (stepValidations this)
      \<and> truthy v
      \<and> (\<forall>a. v = Arr a \<longrightarrow>
                (\<exists>a'. e = Arr a' \<and> a' \<noteq> a \<and> array_at h a' = None
                    \<and> array_at h a \<noteq> None \<and> array_at h' a' = array_at h a))"
    using this' mem tr copy by (intro exI [of _ k] exI [of _ v] exI [of _ e]) simp
  have rest: "this' = this\<lparr>stepScrollTo := stepScrollTo this'\<rparr>"
    "stepData this' = stepData this" "stepValidations this' = stepValidations this"
    "wpData this' = wpData this" "historyData this' = historyData this"
    "resourceData this' = resourceData this" "useCachedJobs this' = useCachedJobs this"
    "showExecuting this' = showExecuting this"
    "\<not> showExecuting this \<longrightarrow> \<not> showExecuting this'"
    using this' by simp_all
  from evs rest frame target show ?thesis by (intro conjI)
qed

theorem validation_abort_changes_only_scroll_target_witness:
  "onExecute example_model
     ([[Str ''required'']], onValidation 0 (Arr 0) initial_form) =
   Inr (([[Str ''required''], [Str ''required'']],
        (onValidation 0 (Arr 0) initial_form)\<lparr>stepScrollTo := Some (''0'', Arr 1)\<rparr>), [])
   \<and> showExecuting ((onValidation 0 (Arr 0) initial_form)\<lparr>stepScrollTo := Some (''0'', Arr 1)\<rparr>) = False"
  using validation_abort_changes_only_scroll_target [of example_model "[[Str ''required'']]" "onValidation 0 (Arr 0) initial_form"
      "[[Str ''required''], [Str ''required'']]"
      "(onValidation 0 (Arr 0) initial_form)\<lparr>stepScrollTo := Some (''0'', Arr 1)\<rparr>" "[]"
      "''0''" "Arr 0"]
  by (simp add: run_defs key_evals)

section \<open>The assembled request\<close>

text \<open>
  The only call \<open>onExecute\<close> issues carries the request \<open>jobDef\<close> puts together.
\<close>

lemma onExecute_request:
  assumes "onExecute m (h, this) = Inr (s', evs)" and "InvokeWorkflow w j \<in> set evs"
  shows "j = jobDef m this \<and> w = workflowId m"
  using assms by (auto simp: onExecute_def split: option.splits sum.splits prod.splits)

lemma map_of_put: "map_of (put k v ps) = (map_of ps)(k \<mapsto> v)"
  by (induction ps) (auto simp: fun_eq_iff)

text \<open>
  A \<open>forEach\<close> over entries with distinct keys that assigns some of them to an object.
\<close>

lemma map_of_fold_put:
  "distinct (map fst es) \<Longrightarrow>
   map_of (fold (\<lambda>(k, v) acc. if P k then put k (g k v) acc else acc) es acc) k =
     (case map_of es k of
        None \<Rightarrow> map_of acc k
      | Some v \<Rightarrow> if P k then Some (g k v) else map_of acc k)"
proof (induction es arbitrary: acc)
  case Nil
  then show ?case by simp
next
  case (Cons e es)
  obtain k' v' where e: "e = (k', v')" by (cases e)
  from Cons.prems e have d: "distinct (map fst es)" and nk: "k' \<notin> fst ` set es" by auto
  show ?case
  proof (cases "k' = k")
    case True
    with nk have "map_of es k = None" by (simp add: map_of_eq_None_iff)
    with True e Cons.IH [OF d] show ?thesis by (simp add: map_of_put)
  next
    case False
    with e Cons.IH [OF d] show ?thesis by (simp add: map_of_put split: option.splits)
  qed
qed

lemma distinct_own_entries:
  assumes "distinct (map fst ps)"
  shows "distinct (map fst (own_entries ps))"
proof -
  from assms have d: "distinct ps" and i: "inj_on fst (set ps)" by (simp_all add: distinct_map)
  have "distinct (own_entries ps)" using d by (auto simp: own_entries_def)
  with i show ?thesis by (simp add: distinct_map set_own_entries)
qed

lemma map_of_own_entries: "distinct (map fst ps) \<Longrightarrow> map_of (own_entries ps) = map_of ps"
  by (simp add: map_of_inject_set distinct_own_entries set_own_entries)

lemma map_of_stepDataFiltered:
  assumes "distinct (map fst inputs)"
  shows "map_of (stepDataFiltered m stepId inputs) name =
           (if isConnected m stepId name then None else map_of inputs name)"
proof -
  have "map_of (stepDataFiltered m stepId inputs) name =
      (case map_of (own_entries inputs) name of
         None \<Rightarrow> map_of [] name
       | Some v \<Rightarrow> if \<not> isConnected m stepId name then Some ((\<lambda>k v. v) name v) else map_of [] name)"
    unfolding stepDataFiltered_def
    by (rule map_of_fold_put [where P = "\<lambda>n. \<not> isConnected m stepId n" and g = "\<lambda>k v. v"])
       (rule distinct_own_entries [OF assms])
  then show ?thesis by (simp add: map_of_own_entries [OF assms] split: option.splits)
qed

lemma map_of_build_parameters:
  assumes "distinct (map fst sd)"
  shows "map_of (build_parameters m sd) stepId =
           map_option (stepDataFiltered m stepId) (map_of sd stepId)"
proof -
  have "map_of (build_parameters m sd) stepId =
      (case map_of (own_entries sd) stepId of
         None \<Rightarrow> map_of [] stepId
       | Some v \<Rightarrow> if True then Some (stepDataFiltered m stepId v) else map_of [] stepId)"
    using map_of_fold_put [where P = "\<lambda>n. True" and g = "stepDataFiltered m" and acc = "[]"
        and es = "own_entries sd" and k = stepId, OF distinct_own_entries [OF assms]]
    by (simp add: build_parameters_def)
  then show ?thesis by (simp add: map_of_own_entries [OF assms] split: option.splits)
qed

text \<open>
  Claim C2.  For a step with a recorded input map, the request's parameter map of that
  step has no entry for an input name the model reports as connected, and has every
  other input name of the recorded map with its recorded value (and nothing else).
  Objects have each key once, which the two distinctness assumptions say.
\<close>

theorem connected_inputs_omitted_from_parameters:
  assumes "onExecute m (h, this) = Inr (s', evs)" and "InvokeWorkflow w j \<in> set evs"
    and "distinct (map fst (stepData this))" and "(stepId, inputs) \<in> set (stepData this)"
    and "distinct (map fst inputs)"
  shows "\<exists>ps. map_of (parameters j) stepId = Some ps
           \<and> (\<forall>name. isConnected m stepId name \<longrightarrow> map_of ps name = None)
           \<and> (\<forall>name. \<not> isConnected m stepId name \<longrightarrow> map_of ps name = map_of inputs name)"
proof -
  from onExecute_request [OF assms(1,2)] have "parameters j = build_parameters m (stepData this)"
    by (simp add: jobDef_def)
  moreover from assms(3,4) have "map_of (stepData this) stepId = Some inputs" by simp
  ultimately have "map_of (parameters j) stepId = Some (stepDataFiltered m stepId inputs)"
    by (simp add: map_of_build_parameters [OF assms(3)])
  then show ?thesis by (simp add: map_of_stepDataFiltered [OF assms(5)])
qed

theorem connected_inputs_omitted_from_parameters_witness:
  "onExecute example_model
     ([], onToolStepInputs 1 [(''c'', Num 3)]
            (onToolStepInputs 0 [(''a'', Num 1), (''b'', Num 2)] initial_form)) =
   Inr (([], (onToolStepInputs 1 [(''c'', Num 3)]
            (onToolStepInputs 0 [(''a'', Num 1), (''b'', Num 2)] initial_form))
          \<lparr>showExecuting := True\<rparr>),
     [Executing True,
      InvokeWorkflow (Str ''w1'')
        \<lparr> new_history_name = Null, history_id = Str ''h1'', resource_params = Undefined,
          replacement_params = Obj [], use_cached_job = False,
          parameters = [(''0'', [(''b'', Num 2)]), (''1'', [(''c'', Num 3)])],
          parameters_normalized = True, batch = True, require_exact_tool_versions = False \<rparr>])
   \<and> (\<exists>ps. map_of [(''0'', [(''b'', Num 2)]), (''1'', [(''c'', Num 3)])] ''0'' = Some ps
         \<and> map_of ps ''a'' = None \<and> map_of ps ''b'' = Some (Num 2))"
proof -
  let ?f = "onToolStepInputs 1 [(''c'', Num 3)]
            (onToolStepInputs 0 [(''a'', Num 1), (''b'', Num 2)] initial_form)"
  let ?j = "\<lparr> new_history_name = Null, history_id = Str ''h1'', resource_params = Undefined,
          replacement_params = Obj [], use_cached_job = False,
          parameters = [(''0'', [(''b'', Num 2)]), (''1'', [(''c'', Num 3)])],
          parameters_normalized = True, batch = True, require_exact_tool_versions = False \<rparr>"
  have run: "onExecute example_model ([], ?f) =
      Inr (([], ?f\<lparr>showExecuting := True\<rparr>), [Executing True, InvokeWorkflow (Str ''w1'') ?j])"
    by (simp add: onToolStepInputs_def run_defs key_evals jobDef_def getprop_def
        build_parameters_def stepDataFiltered_def name_evals)
  have "\<exists>ps. map_of (parameters ?j) ''0'' = Some ps
           \<and> (\<forall>name. isConnected example_model ''0'' name \<longrightarrow> map_of ps name = None)
           \<and> (\<forall>name. \<not> isConnected example_model ''0'' name \<longrightarrow>
                 map_of ps name = map_of [(''a'', Num 1), (''b'', Num 2)] name)"
    by (rule connected_inputs_omitted_from_parameters [OF run])
       (simp_all add: onToolStepInputs_def initial_form_def key_evals)
  then have "\<exists>ps. map_of [(''0'', [(''b'', Num 2)]), (''1'', [(''c'', Num 3)])] ''0'' = Some ps
         \<and> map_of ps ''a'' = None \<and> map_of ps ''b'' = Some (Num 2)"
    by (auto simp: example_model_def)
  with run show ?thesis by simp
qed

text \<open>
  Claim C3.  When the recorded value of \<open>new_history|name\<close> is truthy (for a string:
  non-empty), the request has it as \<open>new_history_name\<close> and \<open>history_id\<close> is null;
  when it is falsy (the empty string, or absent and so undefined), \<open>history_id\<close> is the
  model's history id and \<open>new_history_name\<close> is null.  One of the two fields is always
  null, and not both when the model has a history id.
\<close>

theorem history_target_resolution:
  assumes "onExecute m (h, this) = Inr (s', evs)" and "InvokeWorkflow w j \<in> set evs"
  shows "(truthy (getprop (historyData this) ''new_history|name'') \<longrightarrow>
            new_history_name j = getprop (historyData this) ''new_history|name''
            \<and> history_id j = Null)
       \<and> (\<not> truthy (getprop (historyData this) ''new_history|name'') \<longrightarrow>
            new_history_name j = Null \<and> history_id j = historyId m)
       \<and> (\<forall>s. getprop (historyData this) ''new_history|name'' = Str s \<longrightarrow>
            truthy (getprop (historyData this) ''new_history|name'') = (s \<noteq> []))
       \<and> (map_of (historyData this) ''new_history|name'' = None \<longrightarrow>
            \<not> truthy (getprop (historyData this) ''new_history|name''))
       \<and> (new_history_name j = Null \<or> history_id j = Null)
       \<and> (historyId m \<noteq> Null \<longrightarrow> \<not> (new_history_name j = Null \<and> history_id j = Null))"
proof -
  from onExecute_request [OF assms] have j: "j = jobDef m this" by simp
  show ?thesis unfolding j by (auto simp: jobDef_def getprop_def)
qed

theorem history_target_resolution_witness:
  "onExecute example_model
     ([], onHistoryInputs [(''new_history|check'', Str ''true''), (''new_history|name'', Str ''run 2'')]
            initial_form) =
   Inr (([], (onHistoryInputs [(''new_history|check'', Str ''true''), (''new_history|name'', Str ''run 2'')]
            initial_form)\<lparr>showExecuting := True\<rparr>),
     [Executing True,
      InvokeWorkflow (Str ''w1'')
        \<lparr> new_history_name = Str ''run 2'', history_id = Null, resource_params = Undefined,
          replacement_params = Obj [], use_cached_job = False, parameters = [],
          parameters_normalized = True, batch = True, require_exact_tool_versions = False \<rparr>])
   \<and> new_history_name \<lparr> new_history_name = Str ''run 2'', history_id = Null, resource_params = Undefined,
          replacement_params = Obj [], use_cached_job = False, parameters = [],
          parameters_normalized = True, batch = True, require_exact_tool_versions = False \<rparr> = Str ''run 2''"
proof -
  let ?f = "onHistoryInputs [(''new_history|check'', Str ''true''), (''new_history|name'', Str ''run 2'')]
            initial_form"
  let ?j = "\<lparr> new_history_name = Str ''run 2'', history_id = Null, resource_params = Undefined,
          replacement_params = Obj [], use_cached_job = False, parameters = [],
          parameters_normalized = True, batch = True, require_exact_tool_versions = False \<rparr>"
  have run: "onExecute example_model ([], ?f) =
      Inr (([], ?f\<lparr>showExecuting := True\<rparr>), [Executing True, InvokeWorkflow (Str ''w1'') ?j])"
    by (simp add: onHistoryInputs_def run_defs jobDef_def getprop_def
        build_parameters_def)
  have "InvokeWorkflow (Str ''w1'') ?j \<in> set [Executing True, InvokeWorkflow (Str ''w1'') ?j]"
    by simp
  from history_target_resolution [OF run this] have "new_history_name ?j = Str ''run 2''"
    by (simp add: onHistoryInputs_def initial_form_def getprop_def)
  with run show ?thesis by simp
qed

text \<open>
  Claim C6.  Every request \<open>onExecute\<close> sends has \<open>parameters_normalized\<close> and \<open>batch\<close>
  true and \<open>require_exact_tool_versions\<close> false.
\<close>

theorem fixed_protocol_flags:
  assumes "onExecute m (h, this) = Inr (s', evs)" and "InvokeWorkflow w j \<in> set evs"
  shows "parameters_normalized j = True \<and> batch j = True \<and> require_exact_tool_versions j = False"
  using onExecute_request [OF assms] by (simp add: jobDef_def)

theorem fixed_protocol_flags_witness:
  "onExecute example_model ([], initial_form\<lparr>useCachedJobs := True\<rparr>) =
   Inr (([], initial_form\<lparr>useCachedJobs := True, showExecuting := True\<rparr>),
     [Executing True,
      InvokeWorkflow (Str ''w1'') (jobDef example_model (initial_form\<lparr>useCachedJobs := True\<rparr>))])
   \<and> parameters_normalized (jobDef example_model (initial_form\<lparr>useCachedJobs := True\<rparr>))
   \<and> batch (jobDef example_model (initial_form\<lparr>useCachedJobs := True\<rparr>))
   \<and> \<not> require_exact_tool_versions (jobDef example_model (initial_form\<lparr>useCachedJobs := True\<rparr>))"
proof -
  have run: "onExecute example_model ([], initial_form\<lparr>useCachedJobs := True\<rparr>) =
   Inr (([], initial_form\<lparr>useCachedJobs := True, showExecuting := True\<rparr>),
     [Executing True,
      InvokeWorkflow (Str ''w1'') (jobDef example_model (initial_form\<lparr>useCachedJobs := True\<rparr>))])"
    by (simp add: run_defs)
  from fixed_protocol_flags [OF run] run show ?thesis by simp
qed

section \<open>Rejected submissions\<close>

text \<open>
  Claim C4.  When the rejection carries an error map whose first entry, in the order of
  \<open>Object.entries\<close>, is a step id with a map of field errors that has a first entry, the
  busy indicator is cleared and the scroll target becomes that step id with a new array
  of the field and its message; nothing is emitted.  When \<open>err_data\<close> is missing (the
  guarded chain of reads ends in a falsy value), the busy indicator is cleared, the raw
  error is emitted as \<open>submissionError\<close>, and the scroll target is as before.
\<close>

theorem server_step_errors_set_scroll_target:
  "(errorData e = Obj errs \<and> own_entries errs = (stepId, Obj fieldErrors) # rest
      \<and> own_entries fieldErrors = (field, message) # rest' \<longrightarrow>
      onRejected e (h, this) =
        ((h @ [[Str field, message]],
          this\<lparr>showExecuting := False, stepScrollTo := Some (stepId, Arr (length h))\<rparr>),
         [Executing False]))
   \<and> (\<not> truthy (errorData e) \<longrightarrow>
      onRejected e (h, this) =
        ((h, this\<lparr>showExecuting := False\<rparr>), [Executing False, SubmissionError e]))
   \<and> (e = Obj ps \<and> getprop ps ''response'' = Obj rs \<and> getprop rs ''data'' = Obj d
        \<and> map_of d ''err_data'' = None \<longrightarrow> errorData e = Undefined)"
  by (simp add: onRejected_def format_error_def alloc_def errorData_def getprop_def)

theorem server_step_errors_set_scroll_target_witness:
  "onRejected
     (Obj [(''response'', Obj [(''data'',
        Obj [(''err_data'', Obj [(''2'', Obj [(''field_x'', Str ''bad value'')])])])])])
     ([], initial_form) =
     (([[Str ''field_x'', Str ''bad value'']],
       initial_form\<lparr>showExecuting := False, stepScrollTo := Some (''2'', Arr 0)\<rparr>),
      [Executing False])
   \<and> onRejected
     (Obj [(''response'', Obj [(''data'', Obj [(''err_msg'', Str ''failed'')])])])
     ([], initial_form) =
     (([], initial_form\<lparr>showExecuting := False\<rparr>),
      [Executing False,
       SubmissionError (Obj [(''response'', Obj [(''data'', Obj [(''err_msg'', Str ''failed'')])])])])"
proof -
  let ?e = "Obj [(''response'', Obj [(''data'',
        Obj [(''err_data'', Obj [(''2'', Obj [(''field_x'', Str ''bad value'')])])])])]"
  let ?e' = "Obj [(''response'', Obj [(''data'', Obj [(''err_msg'', Str ''failed'')])])]"
  have 1: "errorData ?e = Obj [(''2'', Obj [(''field_x'', Str ''bad value'')])]
      \<and> own_entries [(''2'', Obj [(''field_x'', Str ''bad value'')])] =
           (''2'', Obj [(''field_x'', Str ''bad value'')]) # []
      \<and> own_entries [(''field_x'', Str ''bad value'')] = (''field_x'', Str ''bad value'') # []"
    by (simp add: errorData_def getprop_def own_entries_def key_evals name_evals)
  have 2: "\<not> truthy (errorData ?e')"
    by (simp add: errorData_def getprop_def)
  from server_step_errors_set_scroll_target [of ?e "[(''2'', Obj [(''field_x'', Str ''bad value'')])]" "''2''"
      "[(''field_x'', Str ''bad value'')]" "[]" "''field_x''" "Str ''bad value''" "[]" "[]" initial_form] 1
  have a: "onRejected ?e ([], initial_form) =
     (([[Str ''field_x'', Str ''bad value'']],
       initial_form\<lparr>showExecuting := False, stepScrollTo := Some (''2'', Arr 0)\<rparr>),
      [Executing False])"
    by simp
  from server_step_errors_set_scroll_target [of ?e' _ _ _ _ _ _ _ "[]" initial_form] 2
  have b: "onRejected ?e' ([], initial_form) =
     (([], initial_form\<lparr>showExecuting := False\<rparr>), [Executing False, SubmissionError ?e'])"
    by simp
  from a b show ?thesis by simp
qed

text \<open>
  Claim C8 fails on the code.  For \<open>err_data = {"2": {}}\<close> the first entry has no field
  error, but nothing throws: \<open>Object.entries({})[0]\<close> is \<open>undefined\<close>.  The scroll target
  is overwritten with the step id and an undefined error detail, and the raw error is
  not emitted.  For \<open>err_data = {}\<close>, the claim's example, the exception is caught and the
  raw error is emitted.
\<close>

theorem empty_step_error_map_not_forwarded:
  "onRejected
     (Obj [(''response'', Obj [(''data'', Obj [(''err_data'', Obj [(''2'', Obj [])])])])])
     ([], initial_form) =
     (([], initial_form\<lparr>showExecuting := False, stepScrollTo := Some (''2'', Undefined)\<rparr>),
      [Executing False])
   \<and> onRejected
     (Obj [(''response'', Obj [(''data'', Obj [(''err_data'', Obj [])])])])
     ([], initial_form) =
     (([], initial_form\<lparr>showExecuting := False\<rparr>),
      [Executing False,
       SubmissionError (Obj [(''response'', Obj [(''data'', Obj [(''err_data'', Obj [])])])])])"
  by (simp add: reject_defs key_evals)

section \<open>The scroll target as read by the steps\<close>

text \<open>
  Claim C10.  \<open>getValidationScrollTo\<close> returns the stored error detail when the step index
  equals (\<open>==\<close>) the stored step id, and a new empty array otherwise, also when no
  scroll target has been recorded.  A stored id that is the numeral of a step index
  equals exactly that index.
\<close>

theorem getValidationScrollTo_detail_for_target_only:
  "(\<forall>k err. stepScrollTo this = Some (k, err) \<and> key_eq_num teq k n \<longrightarrow>
       getValidationScrollTo teq (h, this) n = (err, h))
   \<and> ((stepScrollTo this = None
         \<or> (\<exists>k err. stepScrollTo this = Some (k, err) \<and> \<not> key_eq_num teq k n)) \<longrightarrow>
       getValidationScrollTo teq (h, this) n = (Arr (length h), h @ [[]]))
   \<and> (\<forall>i. i < 4294967295 \<longrightarrow> key_eq_num teq (show_nat i) n = (i = n))"
  by (auto simp: getValidationScrollTo_def alloc_def key_eq_num_def array_index_show_nat)

theorem getValidationScrollTo_detail_for_target_only_witness:
  "getValidationScrollTo (\<lambda>k n. False)
     ([[Str ''required''], [Str ''required'']],
      (onValidation 1 (Arr 0) initial_form)\<lparr>stepScrollTo := Some (''1'', Arr 1)\<rparr>) 1
     = (Arr 1, [[Str ''required''], [Str ''required'']])
   \<and> getValidationScrollTo (\<lambda>k n. False)
     ([[Str ''required''], [Str ''required'']],
      (onValidation 1 (Arr 0) initial_form)\<lparr>stepScrollTo := Some (''1'', Arr 1)\<rparr>) 0
     = (Arr 2, [[Str ''required''], [Str ''required''], []])
   \<and> getValidationScrollTo (\<lambda>k n. False) ([], initial_form) 0 = (Arr 0, [[]])"
proof -
  let ?h = "[[Str ''required''], [Str ''required'']]"
  let ?f = "(onValidation 1 (Arr 0) initial_form)\<lparr>stepScrollTo := Some (''1'', Arr 1)\<rparr>"
  have k1: "key_eq_num (\<lambda>k n. False) ''1'' 1" and k0: "\<not> key_eq_num (\<lambda>k n. False) ''1'' 0"
    by (simp_all add: key_eq_num_def key_evals)
  from getValidationScrollTo_detail_for_target_only [of ?f "\<lambda>k n. False" 1 ?h] k1
  have a: "getValidationScrollTo (\<lambda>k n. False) (?h, ?f) 1 = (Arr 1, ?h)" by simp
  from getValidationScrollTo_detail_for_target_only [of ?f "\<lambda>k n. False" 0 ?h] k0
  have b: "getValidationScrollTo (\<lambda>k n. False) (?h, ?f) 0 = (Arr 2, ?h @ [[]])" by simp
  from getValidationScrollTo_detail_for_target_only [of initial_form "\<lambda>k n. False" 0 "[]"]
  have c: "getValidationScrollTo (\<lambda>k n. False) ([], initial_form) 0 = (Arr 0, [[]])"
    by (simp add: initial_form_def)
  from a b c show ?thesis by simp
qed

end
